theory Spec2Isabelle
  imports Main
begin

section \<open>Smart Predictive Ride Pooling (SPR) manager: data model\<close>

text \<open>
  The pool manager of \<^verbatim>\<open>spr-pool-manager.js\<close> keeps an array of pool objects under one
  key of the browser's local storage. Every operation reads the whole array, changes it in
  memory and writes it back. The model passes the storage explicitly: an operation takes
  the storage and returns its result object together with the storage afterwards.
\<close>

datatype pool_status = PENDING | ACCEPTED | CONFIRMED

record passenger =
  userId :: string
  name :: string

record pool =
  poolId :: string
  destination :: string
  pickupLocation :: string
  departureTime :: string
  capacity :: nat
  passengers :: "passenger list"
  pricePerHead :: nat
  status :: pool_status
  driverId :: "string option"
  driverName :: "string option"
  createdBy :: "string option"

text \<open>The argument of \<^verbatim>\<open>createPool\<close>: the three fields the function reads.\<close>

record poolData =
  pd_destination :: string
  pd_pickupLocation :: string
  pd_departureTime :: string

text \<open>The \<^verbatim>\<open>{ success, message }\<close> object every mutating operation returns.\<close>

record result =
  success :: bool
  message :: string

text \<open>
  What one call reads from \<^verbatim>\<open>new Date()\<close> and \<^verbatim>\<open>Date.now()\<close>: the month as
  \<^verbatim>\<open>getMonth()\<close> gives it (0 to 11), the day of the month, the ISO string of today at
  18:00, and the milliseconds of \<^verbatim>\<open>Date.now()\<close>. The fields are independent, as the
  source reads the clock several times.
\<close>

record clock =
  clk_month :: nat
  clk_date :: nat
  clk_sixPmIso :: string
  clk_now :: nat

text \<open>The value under the storage key: \<open>None\<close> when the key is absent.\<close>

type_synonym storage = "pool list option"

subsection \<open>Simulated users\<close>

definition currentUser :: passenger where
  "currentUser = \<lparr> userId = ''student123'', name = ''Priya S.'' \<rparr>"

definition currentDriver_driverId :: string where
  "currentDriver_driverId = ''driver007''"

definition currentDriver_name :: string where
  "currentDriver_name = ''Suresh K.''"

subsection \<open>JavaScript helpers\<close>

text \<open>Decimal rendering of a number inside a template string or a string concatenation.\<close>

definition digit_char :: "nat \<Rightarrow> char" where
  "digit_char d = ''0123456789'' ! (d mod 10)"

function show_nat :: "nat \<Rightarrow> string" where
  "show_nat n = (if n < 10 then [digit_char n] else show_nat (n div 10) @ [digit_char (n mod 10)])"
  by pat_completeness auto
termination
  by (relation "measure (\<lambda>n. n)") auto

declare show_nat.simps [simp del]

text \<open>Truthiness of a field that holds \<^verbatim>\<open>null\<close> or a string: the empty string is falsy.\<close>

definition truthy :: "string option \<Rightarrow> bool" where
  "truthy v = (case v of None \<Rightarrow> False | Some s \<Rightarrow> s \<noteq> [])"

text \<open>\<^verbatim>\<open>Array.prototype.findIndex\<close>, with \<open>None\<close> for the source's \<^verbatim>\<open>-1\<close>.\<close>

primrec findIndex :: "('a \<Rightarrow> bool) \<Rightarrow> 'a list \<Rightarrow> nat option" where
  "findIndex P [] = None"
| "findIndex P (x # xs) = (if P x then Some 0 else map_option Suc (findIndex P xs))"

text \<open>\<^verbatim>\<open>xs.splice(i, 1)\<close>: the array without its element at index \<open>i\<close>.\<close>

definition splice1 :: "nat \<Rightarrow> 'a list \<Rightarrow> 'a list" where
  "splice1 i xs = take i xs @ drop (Suc i) xs"

subsection \<open>Storage\<close>

definition getPoolsFromStorage :: "storage \<Rightarrow> pool list" where
  "getPoolsFromStorage st = (case st of None \<Rightarrow> [] | Some pools \<Rightarrow> pools)"

definition savePoolsToStorage :: "pool list \<Rightarrow> storage" where
  "savePoolsToStorage pools = Some pools"

definition clearAllPools :: "storage \<Rightarrow> storage" where
  "clearAllPools st = None"

subsection \<open>Result messages\<close>

definition msg_NotFound :: string where
  "msg_NotFound = ''Pool not found!''"

definition msg_Full :: string where
  "msg_Full = ''Sorry, this pool is already full.''"

definition msg_AlreadyJoined :: string where
  "msg_AlreadyJoined = ''You have already joined this pool.''"

definition msg_NotAMember :: string where
  "msg_NotAMember = ''You are not in this pool.''"

definition msg_AlreadyAccepted :: string where
  "msg_AlreadyAccepted = ''This pool has already been accepted.''"

definition failure :: "string \<Rightarrow> result" where
  "failure m = \<lparr> success = False, message = m \<rparr>"

definition succeed :: "string \<Rightarrow> result" where
  "succeed m = \<lparr> success = True, message = m \<rparr>"

section \<open>The operations\<close>

subsection \<open>Predictive generation\<close>

text \<open>
  The key \<^verbatim>\<open>`${month + 1}-${date}`\<close> and the calendar built once, when the module is
  loaded, from the date of that moment.
\<close>

definition dayKey :: "nat \<Rightarrow> nat \<Rightarrow> string" where
  "dayKey m d = show_nat (m + 1) @ ''-'' @ show_nat d"

definition highDemandEvents :: "nat \<Rightarrow> nat \<Rightarrow> (string \<rightharpoonup> string)" where
  "highDemandEvents loadMonth loadDate = [dayKey loadMonth loadDate \<mapsto> ''Holiday Rush'']"

definition predictiveDestination :: string where
  "predictiveDestination = ''Tirupati Railway Station''"

definition predictivePool :: "clock \<Rightarrow> pool" where
  "predictivePool clk =
     \<lparr> poolId = ''pool-'' @ show_nat (clk_now clk),
       destination = predictiveDestination,
       pickupLocation = ''MBU Campus'',
       departureTime = clk_sixPmIso clk,
       capacity = 4,
       passengers = [],
       pricePerHead = 50,
       status = PENDING,
       driverId = None,
       driverName = None,
       createdBy = None \<rparr>"

definition poolExists :: "pool list \<Rightarrow> bool" where
  "poolExists pools =
     list_ex (\<lambda>p. destination p = predictiveDestination \<and> status p = PENDING) pools"

definition generatePredictivePools :: "(string \<rightharpoonup> string) \<Rightarrow> clock \<Rightarrow> storage \<Rightarrow> storage" where
  "generatePredictivePools events clk st =
     (let pools = getPoolsFromStorage st;
          todayKey = dayKey (clk_month clk) (clk_date clk)
      in if truthy (events todayKey) then
           if \<not> poolExists pools then savePoolsToStorage (pools @ [predictivePool clk])
           else st
         else st)"

subsection \<open>createPool\<close>

definition newPool :: "clock \<Rightarrow> poolData \<Rightarrow> pool" where
  "newPool clk pd =
     \<lparr> poolId = ''pool-'' @ show_nat (clk_now clk),
       destination = pd_destination pd,
       pickupLocation = pd_pickupLocation pd,
       departureTime = pd_departureTime pd,
       capacity = 4,
       passengers = [],
       pricePerHead = 50,
       status = PENDING,
       driverId = None,
       driverName = None,
       createdBy = Some (userId currentUser) \<rparr>"

definition createPool :: "clock \<Rightarrow> poolData \<Rightarrow> storage \<Rightarrow> result \<times> storage" where
  "createPool clk pd st =
     (let pools = getPoolsFromStorage st
      in (succeed ''Pool created'', savePoolsToStorage (pools @ [newPool clk pd])))"

subsection \<open>joinPool\<close>

text \<open>
  \<^verbatim>\<open>pools.find\<close> yields a reference to the first pool with the given id, and the source
  changes that object in place; the model finds its index and replaces the element.
\<close>

definition isCurrentUser :: "passenger \<Rightarrow> bool" where
  "isCurrentUser p = (userId p = userId currentUser)"

definition joinedMessage :: "pool \<Rightarrow> string" where
  "joinedMessage p =
     ''Pool to '' @ destination p @ '' is now full and confirmed! Your ride is scheduled.''"

definition joinPool :: "string \<Rightarrow> storage \<Rightarrow> result \<times> storage" where
  "joinPool pid st =
     (let pools = getPoolsFromStorage st
      in case findIndex (\<lambda>p. poolId p = pid) pools of
           None \<Rightarrow> (failure msg_NotFound, st)
         | Some i \<Rightarrow>
             (let p = pools ! i
              in if length (passengers p) \<ge> capacity p then (failure msg_Full, st)
                 else if list_ex isCurrentUser (passengers p) then (failure msg_AlreadyJoined, st)
                 else
                   (let p1 = p\<lparr> passengers := passengers p @ [currentUser] \<rparr>
                    in if length (passengers p1) = capacity p1 \<and> truthy (driverId p1)
                       then (succeed (joinedMessage p1),
                             savePoolsToStorage (pools[i := p1\<lparr> status := CONFIRMED \<rparr>]))
                       else (succeed ''Joined the pool!'',
                             savePoolsToStorage (pools[i := p1])))))"

subsection \<open>exitPool\<close>

definition exitPool :: "string \<Rightarrow> storage \<Rightarrow> result \<times> storage" where
  "exitPool pid st =
     (let pools = getPoolsFromStorage st
      in case findIndex (\<lambda>p. poolId p = pid) pools of
           None \<Rightarrow> (failure msg_NotFound, st)
         | Some poolIndex \<Rightarrow>
             (let p = pools ! poolIndex
              in case findIndex isCurrentUser (passengers p) of
                   None \<Rightarrow> (failure msg_NotAMember, st)
                 | Some passengerIndex \<Rightarrow>
                     (let p1 = p\<lparr> passengers := splice1 passengerIndex (passengers p) \<rparr>
                      in if length (passengers p1) = 0
                         then (succeed ''Pool exited.'',
                               savePoolsToStorage (splice1 poolIndex pools))
                         else
                           (let p2 = (if status p1 = CONFIRMED then p1\<lparr> status := ACCEPTED \<rparr>
                                      else p1)
                            in (succeed ''Pool exited.'',
                                savePoolsToStorage (pools[poolIndex := p2]))))))"

subsection \<open>assignDriver\<close>

definition acceptedMessage :: "pool \<Rightarrow> string" where
  "acceptedMessage p =
     ''You have accepted the pool to '' @ destination p
       @ ''. You will be notified when it'' @ [CHR 0x27] @ ''s full.''"

definition confirmedMessage :: "pool \<Rightarrow> string" where
  "confirmedMessage p =
     ''Pool to '' @ destination p @ '' is now confirmed! The ride is ready.''"

definition assignDriver :: "string \<Rightarrow> storage \<Rightarrow> result \<times> storage" where
  "assignDriver pid st =
     (let pools = getPoolsFromStorage st
      in case findIndex (\<lambda>p. poolId p = pid) pools of
           None \<Rightarrow> (failure msg_NotFound, st)
         | Some i \<Rightarrow>
             (let p = pools ! i
              in if truthy (driverId p) then (failure msg_AlreadyAccepted, st)
                 else
                   (let p1 = p\<lparr> driverId := Some currentDriver_driverId,
                                driverName := Some currentDriver_name,
                                status := ACCEPTED \<rparr>
                    in if length (passengers p1) = capacity p1
                       then (succeed (confirmedMessage p1),
                             savePoolsToStorage (pools[i := p1\<lparr> status := CONFIRMED \<rparr>]))
                       else (succeed (acceptedMessage p1),
                             savePoolsToStorage (pools[i := p1])))))"

subsection \<open>Read-only queries\<close>

definition getAvailablePoolsForStudent :: "storage \<Rightarrow> pool list" where
  "getAvailablePoolsForStudent st =
     filter (\<lambda>p. status p \<in> set [PENDING, ACCEPTED]) (getPoolsFromStorage st)"

definition getAvailablePoolsForDriver :: "storage \<Rightarrow> pool list" where
  "getAvailablePoolsForDriver st =
     filter (\<lambda>p. status p = PENDING \<and> \<not> truthy (driverId p)) (getPoolsFromStorage st)"

definition getMyJoinedPool :: "storage \<Rightarrow> pool option" where
  "getMyJoinedPool st =
     List.find (\<lambda>p. list_ex isCurrentUser (passengers p)) (getPoolsFromStorage st)"

section \<open>Reachable storage\<close>

text \<open>
  The storages the public operations can produce, starting from an absent key. The
  predictive generator runs with the calendar of whatever day the module was loaded on.
\<close>

inductive reachable :: "storage \<Rightarrow> bool" where
  r_init: "reachable None"
| r_create: "reachable st \<Longrightarrow> reachable (snd (createPool clk pd st))"
| r_generate: "reachable st \<Longrightarrow>
     reachable (generatePredictivePools (highDemandEvents loadMonth loadDate) clk st)"
| r_join: "reachable st \<Longrightarrow> reachable (snd (joinPool pid st))"
| r_exit: "reachable st \<Longrightarrow> reachable (snd (exitPool pid st))"
| r_assign: "reachable st \<Longrightarrow> reachable (snd (assignDriver pid st))"


section \<open>The invariants of the data model\<close>

text \<open>
  What the data model promises of every stored pool: capacity 4, no more passengers than
  seats, no user listed twice, a driver that is absent or the simulated driver, status
  CONFIRMED exactly for a full pool with a driver, status PENDING exactly for a pool
  without one.
\<close>

definition pool_inv :: "pool \<Rightarrow> bool" where
  "pool_inv p \<longleftrightarrow>
     capacity p = 4 \<and>
     length (passengers p) \<le> capacity p \<and>
     distinct (map userId (passengers p)) \<and>
     (driverId p = None \<or> driverId p = Some currentDriver_driverId) \<and>
     (status p = CONFIRMED \<longleftrightarrow> driverId p \<noteq> None \<and> length (passengers p) = capacity p) \<and>
     (status p = PENDING \<longleftrightarrow> driverId p = None)"

definition storage_inv :: "storage \<Rightarrow> bool" where
  "storage_inv st = list_all pool_inv (getPoolsFromStorage st)"

text \<open>
  With one hard-coded user, a pool of a reachable storage has no passenger or that user
  alone.
\<close>

definition solo :: "pool \<Rightarrow> bool" where
  "solo p \<longleftrightarrow> passengers p = [] \<or> passengers p = [currentUser]"

text \<open>The pools the current user is a passenger of, in storage order.\<close>

definition joinedPools :: "storage \<Rightarrow> pool list" where
  "joinedPools st = filter (\<lambda>p. list_ex isCurrentUser (passengers p)) (getPoolsFromStorage st)"

section \<open>Example storages\<close>

definition demo_clock :: "nat \<Rightarrow> clock" where
  "demo_clock n = \<lparr> clk_month = 10, clk_date = 2,
     clk_sixPmIso = ''2026-11-02T12:30:00.000Z'', clk_now = n \<rparr>"

definition demo_data :: poolData where
  "demo_data = \<lparr> pd_destination = ''Airport'', pd_pickupLocation = ''MBU Campus'',
     pd_departureTime = ''2026-11-03T09:00'' \<rparr>"

text \<open>One pool created, joined by the current user, then accepted by the driver.\<close>

definition demo_created :: storage where
  "demo_created = snd (createPool (demo_clock 1000) demo_data None)"

definition demo_joined :: storage where
  "demo_joined = snd (joinPool ''pool-1000'' demo_created)"

definition demo_accepted :: storage where
  "demo_accepted = snd (assignDriver ''pool-1000'' demo_joined)"

definition demo_pending_pool :: pool where
  "demo_pending_pool =
     \<lparr> poolId = ''pool-1000'', destination = ''Airport'', pickupLocation = ''MBU Campus'',
       departureTime = ''2026-11-03T09:00'', capacity = 4, passengers = [],
       pricePerHead = 50, status = PENDING, driverId = None,
       driverName = None, createdBy = Some ''student123'' \<rparr>"

definition demo_joined_pool :: pool where
  "demo_joined_pool =
     \<lparr> poolId = ''pool-1000'', destination = ''Airport'', pickupLocation = ''MBU Campus'',
       departureTime = ''2026-11-03T09:00'', capacity = 4, passengers = [currentUser],
       pricePerHead = 50, status = PENDING, driverId = None,
       driverName = None, createdBy = Some ''student123'' \<rparr>"

definition demo_accepted_pool :: pool where
  "demo_accepted_pool =
     \<lparr> poolId = ''pool-1000'', destination = ''Airport'', pickupLocation = ''MBU Campus'',
       departureTime = ''2026-11-03T09:00'', capacity = 4, passengers = [currentUser],
       pricePerHead = 50, status = ACCEPTED, driverId = Some ''driver007'',
       driverName = Some ''Suresh K.'', createdBy = Some ''student123'' \<rparr>"

text \<open>Two pools created a second apart; the driver accepts the second.\<close>

definition demo_mixed :: storage where
  "demo_mixed =
     snd (assignDriver ''pool-2000''
       (snd (createPool (demo_clock 2000) demo_data demo_created)))"

definition demo_driven_pool :: pool where
  "demo_driven_pool =
     \<lparr> poolId = ''pool-2000'', destination = ''Airport'', pickupLocation = ''MBU Campus'',
       departureTime = ''2026-11-03T09:00'', capacity = 4, passengers = [],
       pricePerHead = 50, status = ACCEPTED, driverId = Some ''driver007'',
       driverName = Some ''Suresh K.'', createdBy = Some ''student123'' \<rparr>"

text \<open>Two pools created a second apart; the user joins both, or joins and leaves the first.\<close>

definition demo_first_joined :: storage where
  "demo_first_joined =
     snd (joinPool ''pool-1000'' (snd (createPool (demo_clock 2000) demo_data demo_created)))"

definition demo_two_joined :: storage where
  "demo_two_joined = snd (joinPool ''pool-2000'' demo_first_joined)"

definition demo_left_empty :: storage where
  "demo_left_empty = snd (exitPool ''pool-1000'' demo_first_joined)"

definition demo_second_pool :: pool where
  "demo_second_pool =
     \<lparr> poolId = ''pool-2000'', destination = ''Airport'', pickupLocation = ''MBU Campus'',
       departureTime = ''2026-11-03T09:00'', capacity = 4, passengers = [],
       pricePerHead = 50, status = PENDING, driverId = None,
       driverName = None, createdBy = Some ''student123'' \<rparr>"

text \<open>
  A storage no operation of this module can produce, but one the data model allows: a
  full, confirmed pool of four different users. And the same pool before any driver came.
\<close>

definition demo_other :: "string \<Rightarrow> passenger" where
  "demo_other u = \<lparr> userId = u, name = ''Guest'' \<rparr>"

definition demo_full_pool :: pool where
  "demo_full_pool =
     \<lparr> poolId = ''pool-7'', destination = ''Airport'', pickupLocation = ''MBU Campus'',
       departureTime = ''2026-11-03T09:00'', capacity = 4,
       passengers = [demo_other ''student001'', currentUser, demo_other ''student002'',
                     demo_other ''student003''],
       pricePerHead = 50, status = CONFIRMED, driverId = Some ''driver007'',
       driverName = Some ''Suresh K.'', createdBy = Some ''student001'' \<rparr>"

definition demo_full :: storage where
  "demo_full = Some [demo_pending_pool, demo_full_pool]"

definition demo_full_undriven :: storage where
  "demo_full_undriven =
     Some [demo_full_pool\<lparr> status := PENDING, driverId := None, driverName := None \<rparr>]"



section \<open>Array helpers\<close>

lemma findIndex_Some:
  "findIndex P xs = Some i \<Longrightarrow> i < length xs \<and> P (xs ! i) \<and> (\<forall>j<i. \<not> P (xs ! j))"
proof (induction xs arbitrary: i)
  case Nil
  then show ?case by simp
next
  case (Cons x xs)
  show ?case
  proof (cases "P x")
    case True
    with Cons.prems show ?thesis by simp
  next
    case False
    with Cons.prems obtain k where k: "findIndex P xs = Some k" "i = Suc k"
      by auto
    from Cons.IH [OF k(1)] False k(2) show ?thesis
      by (auto simp: nth_Cons split: nat.splits)
  qed
qed




lemma find_filter:
  "List.find P xs = (case filter P xs of [] \<Rightarrow> None | x # _ \<Rightarrow> Some x)"
  by (induction xs) simp_all

lemma length_splice1: "i < length xs \<Longrightarrow> length (splice1 i xs) = length xs - 1"
  by (simp add: splice1_def)

lemma set_splice1: "set (splice1 i xs) \<subseteq> set xs"
  unfolding splice1_def using set_take_subset [of i xs] set_drop_subset [of "Suc i" xs]
  by auto

lemma splice1_Nil: "splice1 i [] = []"
  by (simp add: splice1_def)

lemma splice1_Cons_0: "splice1 0 (x # xs) = xs"
  by (simp add: splice1_def)

lemma splice1_Cons_Suc: "splice1 (Suc i) (x # xs) = x # splice1 i xs"
  by (simp add: splice1_def)

lemma distinct_map_splice1: "distinct (map f xs) \<Longrightarrow> distinct (map f (splice1 i xs))"
proof (induction xs arbitrary: i)
  case Nil
  then show ?case by (simp add: splice1_Nil)
next
  case (Cons x xs)
  show ?case
  proof (cases i)
    case 0
    with Cons.prems show ?thesis by (simp add: splice1_Cons_0)
  next
    case (Suc k)
    have "f x \<notin> f ` set (splice1 k xs)"
      using Cons.prems set_splice1 [of k xs] by auto
    with Cons Suc show ?thesis by (simp add: splice1_Cons_Suc)
  qed
qed

lemma nth_notin_splice1:
  "distinct xs \<Longrightarrow> i < length xs \<Longrightarrow> xs ! i \<notin> set (splice1 i xs)"
proof (induction xs arbitrary: i)
  case Nil
  then show ?case by simp
next
  case (Cons x xs)
  show ?case
  proof (cases i)
    case 0
    with Cons.prems show ?thesis by (simp add: splice1_Cons_0)
  next
    case (Suc k)
    with Cons show ?thesis by (auto simp: splice1_Cons_Suc)
  qed
qed

lemma list_all_update: "list_all Q xs \<Longrightarrow> Q x \<Longrightarrow> list_all Q (xs[i := x])"
  using set_update_subset_insert [of xs i x] by (auto simp: list_all_iff)

lemma list_all_splice1: "list_all Q xs \<Longrightarrow> list_all Q (splice1 i xs)"
  using set_splice1 [of i xs] by (auto simp: list_all_iff)

section \<open>Passengers and drivers\<close>

lemma isCurrentUser_currentUser: "isCurrentUser currentUser"
  by (simp add: isCurrentUser_def)

lemma list_ex_isCurrentUser:
  "list_ex isCurrentUser ps \<longleftrightarrow> userId currentUser \<in> userId ` set ps"
  by (induction ps) (auto simp: isCurrentUser_def)

lemma count_isCurrentUser:
  "distinct (map userId ps) \<Longrightarrow> list_ex isCurrentUser ps \<Longrightarrow>
     length (filter isCurrentUser ps) = 1"
proof (induction ps)
  case Nil
  then show ?case by simp
next
  case (Cons q ps)
  show ?case
  proof (cases "isCurrentUser q")
    case True
    with Cons.prems(1) have "userId currentUser \<notin> userId ` set ps"
      by (simp add: isCurrentUser_def)
    then have "\<forall>x\<in>set ps. \<not> isCurrentUser x"
      unfolding isCurrentUser_def by (metis imageI)
    then have "filter isCurrentUser ps = []"
      by (simp add: filter_empty_conv)
    with True show ?thesis by simp
  next
    case False
    with Cons show ?thesis by simp
  qed
qed

lemma splice1_removes_user:
  "distinct (map userId ps) \<Longrightarrow> findIndex isCurrentUser ps = Some k \<Longrightarrow>
     \<not> list_ex isCurrentUser (splice1 k ps)"
proof (induction ps arbitrary: k)
  case Nil
  then show ?case by simp
next
  case (Cons q ps)
  show ?case
  proof (cases "isCurrentUser q")
    case True
    with Cons.prems have k: "k = 0" and "userId currentUser \<notin> userId ` set ps"
      by (simp_all add: isCurrentUser_def)
    then show ?thesis
      by (simp add: splice1_Cons_0 list_ex_isCurrentUser)
  next
    case False
    with Cons.prems obtain j where j: "findIndex isCurrentUser ps = Some j" "k = Suc j"
      by auto
    from Cons.IH [OF _ j(1)] Cons.prems(1) False j(2) show ?thesis
      by (simp add: splice1_Cons_Suc)
  qed
qed

lemma truthy_driver: "truthy (Some currentDriver_driverId)"
  by (simp add: truthy_def currentDriver_driverId_def)

lemma pool_inv_truthy: "pool_inv p \<Longrightarrow> truthy (driverId p) \<longleftrightarrow> driverId p \<noteq> None"
proof -
  assume "pool_inv p"
  then have "driverId p = None \<or> driverId p = Some currentDriver_driverId"
    by (simp add: pool_inv_def)
  then show ?thesis
    using truthy_driver by (auto simp: truthy_def)
qed

section \<open>Each operation keeps a property of all pools\<close>

text \<open>
  An operation changes at most one pool of the array. So a property \<open>Q\<close> of every stored
  pool survives an operation as soon as the changed pool has it; the storage before is
  arbitrary.
\<close>

lemma createPool_preserves:
  assumes "list_all Q (getPoolsFromStorage st)" and "Q (newPool clk pd)"
  shows "list_all Q (getPoolsFromStorage (snd (createPool clk pd st)))"
  using assms
  by (simp add: createPool_def savePoolsToStorage_def getPoolsFromStorage_def [of "Some _"])

lemma generate_preserves:
  assumes "list_all Q (getPoolsFromStorage st)" and "Q (predictivePool clk)"
  shows "list_all Q (getPoolsFromStorage (generatePredictivePools ev clk st))"
  using assms
  by (simp add: generatePredictivePools_def savePoolsToStorage_def
      getPoolsFromStorage_def [of "Some _"] Let_def)

lemma joinPool_preserves:
  assumes all: "list_all Q (getPoolsFromStorage st)"
    and step: "\<And>p p1. Q p \<Longrightarrow> \<not> capacity p \<le> length (passengers p) \<Longrightarrow>
        \<not> list_ex isCurrentUser (passengers p) \<Longrightarrow>
        p1 = p\<lparr> passengers := passengers p @ [currentUser] \<rparr> \<Longrightarrow>
        Q (if length (passengers p1) = capacity p1 \<and> truthy (driverId p1)
           then p1\<lparr> status := CONFIRMED \<rparr> else p1)"
  shows "list_all Q (getPoolsFromStorage (snd (joinPool pid st)))"
proof -
  define pools where "pools = getPoolsFromStorage st"
  have all': "list_all Q pools"
    using all by (simp add: pools_def)
  show ?thesis
  proof (cases "findIndex (\<lambda>p. poolId p = pid) pools")
    case None
    then show ?thesis
      using all by (simp add: joinPool_def pools_def [symmetric])
  next
    case (Some i)
    define p where "p = pools ! i"
    have "i < length pools"
      using findIndex_Some [OF Some] by simp
    then have pinv: "Q p"
      using all' by (simp add: p_def list_all_length)
    show ?thesis
    proof (cases "capacity p \<le> length (passengers p) \<or> list_ex isCurrentUser (passengers p)")
      case True
      then show ?thesis
        using all Some by (auto simp: joinPool_def pools_def [symmetric] p_def [symmetric])
    next
      case False
      define p1 where "p1 = p\<lparr> passengers := passengers p @ [currentUser] \<rparr>"
      have s: "Q (if length (passengers p1) = capacity p1 \<and> truthy (driverId p1)
                   then p1\<lparr> status := CONFIRMED \<rparr> else p1)"
        using step [OF pinv _ _ p1_def] False by simp
      have "getPoolsFromStorage (snd (joinPool pid st)) =
              pools[i := (if length (passengers p1) = capacity p1 \<and> truthy (driverId p1)
                   then p1\<lparr> status := CONFIRMED \<rparr> else p1)]"
        using False Some
        by (simp add: joinPool_def pools_def [symmetric] p_def [symmetric] p1_def
            savePoolsToStorage_def getPoolsFromStorage_def [of "Some _"] Let_def)
      then show ?thesis
        using list_all_update [OF all' s] by simp
    qed
  qed
qed

lemma exitPool_preserves:
  assumes all: "list_all Q (getPoolsFromStorage st)"
    and step: "\<And>p k p1. Q p \<Longrightarrow> findIndex isCurrentUser (passengers p) = Some k \<Longrightarrow>
        p1 = p\<lparr> passengers := splice1 k (passengers p) \<rparr> \<Longrightarrow>
        length (passengers p1) \<noteq> 0 \<Longrightarrow>
        Q (if status p1 = CONFIRMED then p1\<lparr> status := ACCEPTED \<rparr> else p1)"
  shows "list_all Q (getPoolsFromStorage (snd (exitPool pid st)))"
proof -
  define pools where "pools = getPoolsFromStorage st"
  have all': "list_all Q pools"
    using all by (simp add: pools_def)
  show ?thesis
  proof (cases "findIndex (\<lambda>p. poolId p = pid) pools")
    case None
    then show ?thesis
      using all by (simp add: exitPool_def pools_def [symmetric])
  next
    case (Some i)
    define p where "p = pools ! i"
    have "i < length pools"
      using findIndex_Some [OF Some] by simp
    then have pinv: "Q p"
      using all' by (simp add: p_def list_all_length)
    show ?thesis
    proof (cases "findIndex isCurrentUser (passengers p)")
      case None
      then show ?thesis
        using all Some by (simp add: exitPool_def pools_def [symmetric] p_def [symmetric])
    next
      case k: (Some k)
      define p1 where "p1 = p\<lparr> passengers := splice1 k (passengers p) \<rparr>"
      show ?thesis
      proof (cases "length (passengers p1) = 0")
        case True
        then have "getPoolsFromStorage (snd (exitPool pid st)) = splice1 i pools"
          using Some k
          by (simp add: exitPool_def pools_def [symmetric] p_def [symmetric] p1_def
              savePoolsToStorage_def getPoolsFromStorage_def [of "Some _"] Let_def)
        then show ?thesis
          using list_all_splice1 [OF all'] by simp
      next
        case False
        have s: "Q (if status p1 = CONFIRMED then p1\<lparr> status := ACCEPTED \<rparr> else p1)"
          using step [OF pinv k p1_def False] .
        have "getPoolsFromStorage (snd (exitPool pid st)) =
                pools[i := (if status p1 = CONFIRMED then p1\<lparr> status := ACCEPTED \<rparr> else p1)]"
          using False Some k
          by (simp add: exitPool_def pools_def [symmetric] p_def [symmetric] p1_def
              savePoolsToStorage_def getPoolsFromStorage_def [of "Some _"] Let_def)
        then show ?thesis
          using list_all_update [OF all' s] by simp
      qed
    qed
  qed
qed

lemma assignDriver_preserves:
  assumes all: "list_all Q (getPoolsFromStorage st)"
    and step: "\<And>p p1. Q p \<Longrightarrow>
        p1 = p\<lparr> driverId := Some currentDriver_driverId,
                 driverName := Some currentDriver_name, status := ACCEPTED \<rparr> \<Longrightarrow>
        Q (if length (passengers p1) = capacity p1 then p1\<lparr> status := CONFIRMED \<rparr> else p1)"
  shows "list_all Q (getPoolsFromStorage (snd (assignDriver pid st)))"
proof -
  define pools where "pools = getPoolsFromStorage st"
  have all': "list_all Q pools"
    using all by (simp add: pools_def)
  show ?thesis
  proof (cases "findIndex (\<lambda>p. poolId p = pid) pools")
    case None
    then show ?thesis
      using all by (simp add: assignDriver_def pools_def [symmetric])
  next
    case (Some i)
    define p where "p = pools ! i"
    have "i < length pools"
      using findIndex_Some [OF Some] by simp
    then have pinv: "Q p"
      using all' by (simp add: p_def list_all_length)
    show ?thesis
    proof (cases "truthy (driverId p)")
      case True
      then show ?thesis
        using all Some by (simp add: assignDriver_def pools_def [symmetric] p_def [symmetric])
    next
      case False
      define p1 where "p1 = p\<lparr> driverId := Some currentDriver_driverId,
                       driverName := Some currentDriver_name, status := ACCEPTED \<rparr>"
      have s: "Q (if length (passengers p1) = capacity p1
                   then p1\<lparr> status := CONFIRMED \<rparr> else p1)"
        using step [OF pinv p1_def] .
      have "getPoolsFromStorage (snd (assignDriver pid st)) =
              pools[i := (if length (passengers p1) = capacity p1
                   then p1\<lparr> status := CONFIRMED \<rparr> else p1)]"
        using False Some
        by (simp add: assignDriver_def pools_def [symmetric] p_def [symmetric] p1_def
            savePoolsToStorage_def getPoolsFromStorage_def [of "Some _"] Let_def)
      then show ?thesis
        using list_all_update [OF all' s] by simp
    qed
  qed
qed

lemma reachable_list_all:
  assumes r: "reachable st"
    and new: "\<And>clk pd. Q (newPool clk pd)"
    and pred: "\<And>clk. Q (predictivePool clk)"
    and join: "\<And>p p1. Q p \<Longrightarrow> \<not> capacity p \<le> length (passengers p) \<Longrightarrow>
        \<not> list_ex isCurrentUser (passengers p) \<Longrightarrow>
        p1 = p\<lparr> passengers := passengers p @ [currentUser] \<rparr> \<Longrightarrow>
        Q (if length (passengers p1) = capacity p1 \<and> truthy (driverId p1)
           then p1\<lparr> status := CONFIRMED \<rparr> else p1)"
    and exit: "\<And>p k p1. Q p \<Longrightarrow> findIndex isCurrentUser (passengers p) = Some k \<Longrightarrow>
        p1 = p\<lparr> passengers := splice1 k (passengers p) \<rparr> \<Longrightarrow>
        length (passengers p1) \<noteq> 0 \<Longrightarrow>
        Q (if status p1 = CONFIRMED then p1\<lparr> status := ACCEPTED \<rparr> else p1)"
    and assign: "\<And>p p1. Q p \<Longrightarrow>
        p1 = p\<lparr> driverId := Some currentDriver_driverId,
                 driverName := Some currentDriver_name, status := ACCEPTED \<rparr> \<Longrightarrow>
        Q (if length (passengers p1) = capacity p1 then p1\<lparr> status := CONFIRMED \<rparr> else p1)"
  shows "list_all Q (getPoolsFromStorage st)"
  using r
proof (induction rule: reachable.induct)
  case r_init
  show ?case by (simp add: getPoolsFromStorage_def)
next
  case (r_create st clk pd)
  then show ?case by (intro createPool_preserves new)
next
  case (r_generate st loadMonth loadDate clk)
  then show ?case by (intro generate_preserves pred)
next
  case (r_join st pid)
  then show ?case by (intro joinPool_preserves join)
next
  case (r_exit st pid)
  then show ?case by (intro exitPool_preserves exit)
next
  case (r_assign st pid)
  then show ?case by (intro assignDriver_preserves assign)
qed

section \<open>The data model's invariants hold in every reachable storage\<close>

lemma pool_inv_newPool: "pool_inv (newPool clk pd)"
  by (simp add: pool_inv_def newPool_def)

lemma pool_inv_predictivePool: "pool_inv (predictivePool clk)"
  by (simp add: pool_inv_def predictivePool_def)

lemma pool_inv_join_step:
  assumes inv: "pool_inv p"
    and room: "\<not> capacity p \<le> length (passengers p)"
    and new: "\<not> list_ex isCurrentUser (passengers p)"
    and p1: "p1 = p\<lparr> passengers := passengers p @ [currentUser] \<rparr>"
  shows "pool_inv (if length (passengers p1) = capacity p1 \<and> truthy (driverId p1)
                   then p1\<lparr> status := CONFIRMED \<rparr> else p1)"
proof -
  have t: "truthy (driverId p) \<longleftrightarrow> driverId p \<noteq> None"
    using inv by (rule pool_inv_truthy)
  have d: "distinct (map userId (passengers p @ [currentUser]))"
    using inv new by (simp add: pool_inv_def list_ex_isCurrentUser)
  have nc: "status p \<noteq> CONFIRMED"
    using inv room by (auto simp: pool_inv_def)
  show ?thesis
    using inv room d nc unfolding p1 pool_inv_def by (auto simp: t)
qed

lemma pool_inv_exit_step:
  assumes inv: "pool_inv p"
    and idx: "findIndex isCurrentUser (passengers p) = Some k"
    and p1: "p1 = p\<lparr> passengers := splice1 k (passengers p) \<rparr>"
    and ne: "length (passengers p1) \<noteq> 0"
  shows "pool_inv (if status p1 = CONFIRMED then p1\<lparr> status := ACCEPTED \<rparr> else p1)"
proof -
  have k: "k < length (passengers p)"
    using findIndex_Some [OF idx] by simp
  have len: "length (passengers p1) = length (passengers p) - 1"
    using k by (simp add: p1 length_splice1)
  have d: "distinct (map userId (passengers p1))"
    using inv by (simp add: p1 pool_inv_def distinct_map_splice1)
  have pos: "0 < length (passengers p)"
    using k by (cases "passengers p") simp_all
  have le: "length (passengers p) \<le> capacity p"
    using inv by (simp add: pool_inv_def)
  have lt: "length (passengers p1) < capacity p"
    using le len pos by arith
  have fields: "capacity p1 = capacity p" "driverId p1 = driverId p" "status p1 = status p"
    by (simp_all add: p1)
  show ?thesis
  proof (cases "status p = CONFIRMED")
    case True
    then have "driverId p \<noteq> None"
      using inv by (simp add: pool_inv_def)
    with True inv d lt fields show ?thesis
      by (simp add: pool_inv_def)
  next
    case False
    with inv d lt fields show ?thesis
      by (simp add: pool_inv_def)
  qed
qed

lemma pool_inv_assign_step:
  assumes inv: "pool_inv p"
    and p1: "p1 = p\<lparr> driverId := Some currentDriver_driverId,
                       driverName := Some currentDriver_name, status := ACCEPTED \<rparr>"
  shows "pool_inv (if length (passengers p1) = capacity p1
                   then p1\<lparr> status := CONFIRMED \<rparr> else p1)"
  using inv unfolding p1 pool_inv_def by simp

lemma storage_inv_joinPool: "storage_inv st \<Longrightarrow> storage_inv (snd (joinPool pid st))"
  unfolding storage_inv_def by (erule joinPool_preserves) (fact pool_inv_join_step)

lemma storage_inv_exitPool: "storage_inv st \<Longrightarrow> storage_inv (snd (exitPool pid st))"
  unfolding storage_inv_def by (erule exitPool_preserves) (fact pool_inv_exit_step)

lemma storage_inv_assignDriver: "storage_inv st \<Longrightarrow> storage_inv (snd (assignDriver pid st))"
  unfolding storage_inv_def by (erule assignDriver_preserves) (fact pool_inv_assign_step)

lemma reachable_storage_inv: "reachable st \<Longrightarrow> storage_inv st"
  unfolding storage_inv_def
  by (erule reachable_list_all)
    (fact pool_inv_newPool pool_inv_predictivePool pool_inv_join_step pool_inv_exit_step
      pool_inv_assign_step)+

lemma reachable_pool_inv:
  "reachable st \<Longrightarrow> p \<in> set (getPoolsFromStorage st) \<Longrightarrow> pool_inv p"
  using reachable_storage_inv [of st] by (simp add: storage_inv_def list_all_iff)

text \<open>
  The module has one user, so no reachable pool ever has two passengers, and with capacity
  4 none is ever CONFIRMED. The invariants above do not rest on that: each operation keeps
  them on any storage that has them.
\<close>

lemma solo_newPool: "solo (newPool clk pd)"
  by (simp add: solo_def newPool_def)

lemma solo_predictivePool: "solo (predictivePool clk)"
  by (simp add: solo_def predictivePool_def)

lemma solo_join_step:
  assumes "solo p" and "\<not> capacity p \<le> length (passengers p)"
    and "\<not> list_ex isCurrentUser (passengers p)"
    and "p1 = p\<lparr> passengers := passengers p @ [currentUser] \<rparr>"
  shows "solo (if length (passengers p1) = capacity p1 \<and> truthy (driverId p1)
           then p1\<lparr> status := CONFIRMED \<rparr> else p1)"
  using assms isCurrentUser_currentUser by (auto simp: solo_def)

lemma solo_exit_step:
  assumes "solo p" and "findIndex isCurrentUser (passengers p) = Some k"
    and "p1 = p\<lparr> passengers := splice1 k (passengers p) \<rparr>"
    and "length (passengers p1) \<noteq> 0"
  shows "solo (if status p1 = CONFIRMED then p1\<lparr> status := ACCEPTED \<rparr> else p1)"
  using assms isCurrentUser_currentUser by (auto simp: solo_def splice1_Cons_0 splice1_Nil)

lemma solo_assign_step:
  assumes "solo p"
    and "p1 = p\<lparr> driverId := Some currentDriver_driverId,
                 driverName := Some currentDriver_name, status := ACCEPTED \<rparr>"
  shows "solo (if length (passengers p1) = capacity p1 then p1\<lparr> status := CONFIRMED \<rparr> else p1)"
  using assms by (auto simp: solo_def)

lemma reachable_solo:
  assumes "reachable st" and "p \<in> set (getPoolsFromStorage st)"
  shows "passengers p = [] \<or> passengers p = [currentUser]"
proof -
  have "list_all solo (getPoolsFromStorage st)"
    using assms(1)
    by (rule reachable_list_all)
      (fact solo_newPool solo_predictivePool solo_join_step solo_exit_step solo_assign_step)+
  with assms(2) show ?thesis
    by (simp add: list_all_iff solo_def)
qed

lemma reachable_never_confirmed:
  assumes "reachable st" and "p \<in> set (getPoolsFromStorage st)"
  shows "status p \<noteq> CONFIRMED"
proof -
  have "pool_inv p"
    using assms by (rule reachable_pool_inv)
  moreover have "length (passengers p) \<le> 1"
    using reachable_solo [OF assms] by auto
  ultimately show ?thesis
    by (auto simp: pool_inv_def)
qed

section \<open>Example storages, evaluated\<close>

lemma reachable_demo_accepted: "reachable demo_accepted"
  unfolding demo_accepted_def demo_joined_def demo_created_def
  by (intro reachable.intros)

lemma reachable_demo_mixed: "reachable demo_mixed"
  unfolding demo_mixed_def demo_created_def
  by (intro reachable.intros)

lemma reachable_demo_two_joined: "reachable demo_two_joined"
  unfolding demo_two_joined_def demo_first_joined_def demo_created_def
  by (intro reachable.intros)

lemma reachable_demo_left_empty: "reachable demo_left_empty"
  unfolding demo_left_empty_def demo_first_joined_def demo_created_def
  by (intro reachable.intros)

lemma pools_demo_created: "getPoolsFromStorage demo_created = [demo_pending_pool]"
  by code_simp

lemma pools_demo_joined: "getPoolsFromStorage demo_joined = [demo_joined_pool]"
  by code_simp

lemma pools_demo_accepted: "getPoolsFromStorage demo_accepted = [demo_accepted_pool]"
  by code_simp

lemma pools_demo_mixed: "getPoolsFromStorage demo_mixed = [demo_pending_pool, demo_driven_pool]"
  by code_simp

lemma pools_demo_full: "getPoolsFromStorage demo_full = [demo_pending_pool, demo_full_pool]"
  by (simp add: demo_full_def getPoolsFromStorage_def)

lemma findIndex_demo_joined:
  "findIndex (\<lambda>p. poolId p = ''pool-1000'') (getPoolsFromStorage demo_joined) = Some 0"
  by (simp add: pools_demo_joined demo_joined_pool_def)

lemma findIndex_demo_full:
  "findIndex (\<lambda>p. poolId p = ''pool-7'') (getPoolsFromStorage demo_full) = Some 1"
  by (simp add: pools_demo_full demo_pending_pool_def demo_full_pool_def)

lemma pool_inv_demo_full_pool: "pool_inv demo_full_pool"
  by (simp add: pool_inv_def demo_full_pool_def demo_other_def currentUser_def
      currentDriver_driverId_def)

section \<open>Invariants of reachable storage\<close>

text \<open>
  C1. In every storage reachable from the empty collection by createPool,
  generatePredictivePools, joinPool, exitPool and assignDriver, a pool has status CONFIRMED
  if and only if its driverId is set and its passenger list is as long as its capacity.
\<close>

theorem confirmed_iff_driver_and_full:
  assumes "reachable st" and "p \<in> set (getPoolsFromStorage st)"
  shows "status p = CONFIRMED \<longleftrightarrow>
           driverId p \<noteq> None \<and> length (passengers p) = capacity p"
  using reachable_pool_inv [OF assms] by (simp add: pool_inv_def)

theorem confirmed_iff_driver_and_full_witness:
  "reachable demo_accepted \<and> demo_accepted_pool \<in> set (getPoolsFromStorage demo_accepted) \<and>
   (status demo_accepted_pool = CONFIRMED \<longleftrightarrow>
      driverId demo_accepted_pool \<noteq> None \<and>
      length (passengers demo_accepted_pool) = capacity demo_accepted_pool)"
proof -
  have m: "demo_accepted_pool \<in> set (getPoolsFromStorage demo_accepted)"
    by (simp add: pools_demo_accepted)
  from confirmed_iff_driver_and_full [OF reachable_demo_accepted m] reachable_demo_accepted m
  show ?thesis by blast
qed

text \<open>
  C2. In every reachable storage, so after every operation, no pool has more passengers
  than its capacity.
\<close>

theorem passengers_within_capacity:
  assumes "reachable st" and "p \<in> set (getPoolsFromStorage st)"
  shows "length (passengers p) \<le> capacity p"
  using reachable_pool_inv [OF assms] by (simp add: pool_inv_def)

theorem passengers_within_capacity_witness:
  "reachable demo_accepted \<and> demo_accepted_pool \<in> set (getPoolsFromStorage demo_accepted) \<and>
   length (passengers demo_accepted_pool) \<le> capacity demo_accepted_pool"
proof -
  have m: "demo_accepted_pool \<in> set (getPoolsFromStorage demo_accepted)"
    by (simp add: pools_demo_accepted)
  from passengers_within_capacity [OF reachable_demo_accepted m] reachable_demo_accepted m
  show ?thesis by blast
qed

section \<open>The predictive generator\<close>

lemma poolExists_append_predictive: "poolExists (pools @ [predictivePool clk])"
  by (simp add: poolExists_def predictivePool_def)

text \<open>
  C3. Two runs of the generator on the same day, with nothing in between, leave the storage
  as one run does: the second run adds nothing. When the day is in the calendar and no
  PENDING pool to the destination was stored before, the two runs together add exactly one
  pool, the one of the first run.
\<close>

theorem generatePredictivePools_twice:
  assumes "clk_month c2 = clk_month c1" and "clk_date c2 = clk_date c1"
  shows "generatePredictivePools ev c2 (generatePredictivePools ev c1 st) =
           generatePredictivePools ev c1 st \<and>
         (truthy (ev (dayKey (clk_month c1) (clk_date c1))) \<and>
          \<not> poolExists (getPoolsFromStorage st) \<longrightarrow>
            generatePredictivePools ev c2 (generatePredictivePools ev c1 st) =
              Some (getPoolsFromStorage st @ [predictivePool c1]))"
proof (cases "truthy (ev (dayKey (clk_month c1) (clk_date c1))) \<and>
          \<not> poolExists (getPoolsFromStorage st)")
  case True
  then have first: "generatePredictivePools ev c1 st =
      Some (getPoolsFromStorage st @ [predictivePool c1])"
    by (simp add: generatePredictivePools_def savePoolsToStorage_def Let_def)
  have "generatePredictivePools ev c2 (Some (getPoolsFromStorage st @ [predictivePool c1])) =
      Some (getPoolsFromStorage st @ [predictivePool c1])"
    using poolExists_append_predictive [of "getPoolsFromStorage st" c1]
    by (simp add: generatePredictivePools_def getPoolsFromStorage_def [of "Some _"] Let_def)
  with first show ?thesis by simp
next
  case False
  then have first: "generatePredictivePools ev c1 st = st"
    by (auto simp: generatePredictivePools_def Let_def)
  from False assms have "generatePredictivePools ev c2 st = st"
    by (auto simp: generatePredictivePools_def Let_def)
  with first False show ?thesis by auto
qed

theorem generatePredictivePools_twice_witness:
  "clk_month (demo_clock 6) = clk_month (demo_clock 5) \<and>
   clk_date (demo_clock 6) = clk_date (demo_clock 5) \<and>
   highDemandEvents 10 2 (dayKey (clk_month (demo_clock 5)) (clk_date (demo_clock 5))) =
     Some ''Holiday Rush'' \<and>
   \<not> poolExists (getPoolsFromStorage None) \<and>
   generatePredictivePools (highDemandEvents 10 2) (demo_clock 6)
     (generatePredictivePools (highDemandEvents 10 2) (demo_clock 5) None) =
   Some [predictivePool (demo_clock 5)]"
proof -
  have m: "clk_month (demo_clock 6) = clk_month (demo_clock 5)"
    and d: "clk_date (demo_clock 6) = clk_date (demo_clock 5)"
    by (simp_all add: demo_clock_def)
  have e: "highDemandEvents 10 2 (dayKey (clk_month (demo_clock 5)) (clk_date (demo_clock 5))) =
     Some ''Holiday Rush''"
    by (simp add: highDemandEvents_def demo_clock_def)
  then have t: "truthy (highDemandEvents 10 2
      (dayKey (clk_month (demo_clock 5)) (clk_date (demo_clock 5))))"
    by (simp add: truthy_def)
  have n: "\<not> poolExists (getPoolsFromStorage None)"
    by (simp add: poolExists_def getPoolsFromStorage_def)
  have g: "getPoolsFromStorage None = []"
    by (simp add: getPoolsFromStorage_def)
  from generatePredictivePools_twice [OF m d, of "highDemandEvents 10 2" None] t n
  have "generatePredictivePools (highDemandEvents 10 2) (demo_clock 6)
     (generatePredictivePools (highDemandEvents 10 2) (demo_clock 5) None) =
     Some (getPoolsFromStorage None @ [predictivePool (demo_clock 5)])"
    by blast
  with m d e n g show ?thesis by simp
qed

section \<open>joinPool\<close>

text \<open>
  C4. When the pool that the id finds has as many passengers as its capacity (or more),
  joinPool fails with the Full message and the storage is what it was.
\<close>

theorem joinPool_full:
  assumes "findIndex (\<lambda>p. poolId p = pid) (getPoolsFromStorage st) = Some i"
    and "capacity (getPoolsFromStorage st ! i) \<le> length (passengers (getPoolsFromStorage st ! i))"
  shows "joinPool pid st =
           (\<lparr> success = False, message = ''Sorry, this pool is already full.'' \<rparr>, st)"
  using assms by (simp add: joinPool_def failure_def msg_Full_def)

theorem joinPool_full_witness:
  "findIndex (\<lambda>p. poolId p = ''pool-7'') (getPoolsFromStorage demo_full) = Some 1 \<and>
   capacity (getPoolsFromStorage demo_full ! 1) \<le>
     length (passengers (getPoolsFromStorage demo_full ! 1)) \<and>
   joinPool ''pool-7'' demo_full =
     (\<lparr> success = False, message = ''Sorry, this pool is already full.'' \<rparr>, demo_full)"
proof -
  have c: "capacity (getPoolsFromStorage demo_full ! 1) \<le>
     length (passengers (getPoolsFromStorage demo_full ! 1))"
    by (simp add: pools_demo_full demo_full_pool_def)
  from joinPool_full [OF findIndex_demo_full c] findIndex_demo_full c show ?thesis
    by blast
qed

text \<open>
  C5. When the current user is already a passenger of the pool P that the id finds, P has
  seats left and lists no user twice, joinPool fails with the AlreadyJoined message, the
  storage is what it was, and P's passenger list afterwards holds the current user exactly
  once.
\<close>

theorem joinPool_already_joined:
  assumes idx: "findIndex (\<lambda>p. poolId p = pid) (getPoolsFromStorage st) = Some i"
    and P: "getPoolsFromStorage st ! i = P"
    and member: "list_ex isCurrentUser (passengers P)"
    and room: "length (passengers P) < capacity P"
    and nodup: "distinct (map userId (passengers P))"
  shows "joinPool pid st =
           (\<lparr> success = False, message = ''You have already joined this pool.'' \<rparr>, st) \<and>
         getPoolsFromStorage (snd (joinPool pid st)) ! i = P \<and>
         length (filter isCurrentUser
           (passengers (getPoolsFromStorage (snd (joinPool pid st)) ! i))) = 1"
proof -
  have j: "joinPool pid st = (failure msg_AlreadyJoined, st)"
    using idx P member room by (simp add: joinPool_def)
  have c: "length (filter isCurrentUser (passengers P)) = 1"
    using nodup member by (rule count_isCurrentUser)
  from j c P show ?thesis
    by (simp add: failure_def msg_AlreadyJoined_def)
qed

theorem joinPool_already_joined_witness:
  "findIndex (\<lambda>p. poolId p = ''pool-1000'') (getPoolsFromStorage demo_joined) = Some 0 \<and>
   getPoolsFromStorage demo_joined ! 0 = demo_joined_pool \<and>
   list_ex isCurrentUser (passengers demo_joined_pool) \<and>
   length (passengers demo_joined_pool) < capacity demo_joined_pool \<and>
   distinct (map userId (passengers demo_joined_pool)) \<and>
   joinPool ''pool-1000'' demo_joined =
     (\<lparr> success = False, message = ''You have already joined this pool.'' \<rparr>, demo_joined) \<and>
   length (filter isCurrentUser
     (passengers (getPoolsFromStorage (snd (joinPool ''pool-1000'' demo_joined)) ! 0))) = 1"
proof -
  have P: "getPoolsFromStorage demo_joined ! 0 = demo_joined_pool"
    by (simp add: pools_demo_joined)
  have member: "list_ex isCurrentUser (passengers demo_joined_pool)"
    by (simp add: demo_joined_pool_def isCurrentUser_def)
  have room: "length (passengers demo_joined_pool) < capacity demo_joined_pool"
    by (simp add: demo_joined_pool_def)
  have nodup: "distinct (map userId (passengers demo_joined_pool))"
    by (simp add: demo_joined_pool_def)
  from joinPool_already_joined [OF findIndex_demo_joined P member room nodup]
    findIndex_demo_joined P member room nodup
  show ?thesis by blast
qed

section \<open>exitPool\<close>

lemma exitPool_emptied:
  assumes idx: "findIndex (\<lambda>p. poolId p = pid) (getPoolsFromStorage st) = Some i"
    and only: "passengers (getPoolsFromStorage st ! i) = [u]"
    and u: "isCurrentUser u"
  shows "exitPool pid st = (succeed ''Pool exited.'', Some (splice1 i (getPoolsFromStorage st)))"
  using assms
  by (simp add: exitPool_def splice1_Cons_0 savePoolsToStorage_def)

lemma exitPool_no_new_empty:
  assumes q: "q \<in> set (getPoolsFromStorage (snd (exitPool pid st)))"
    and e: "passengers q = []"
  shows "q \<in> set (getPoolsFromStorage st)"
proof -
  define pools where "pools = getPoolsFromStorage st"
  show ?thesis
  proof (cases "findIndex (\<lambda>p. poolId p = pid) pools")
    case None
    then show ?thesis
      using q by (simp add: exitPool_def pools_def [symmetric])
  next
    case (Some i)
    define p where "p = pools ! i"
    show ?thesis
    proof (cases "findIndex isCurrentUser (passengers p)")
      case None
      then show ?thesis
        using q Some by (simp add: exitPool_def pools_def [symmetric] p_def [symmetric])
    next
      case k: (Some k)
      define p1 where "p1 = p\<lparr> passengers := splice1 k (passengers p) \<rparr>"
      show ?thesis
      proof (cases "length (passengers p1) = 0")
        case True
        then have "getPoolsFromStorage (snd (exitPool pid st)) = splice1 i pools"
          using Some k
          by (simp add: exitPool_def pools_def [symmetric] p_def [symmetric] p1_def
              savePoolsToStorage_def getPoolsFromStorage_def [of "Some _"] Let_def)
        then show ?thesis
          using q set_splice1 [of i pools] by (auto simp: pools_def)
      next
        case False
        define p2 where "p2 = (if status p1 = CONFIRMED then p1\<lparr> status := ACCEPTED \<rparr> else p1)"
        have ne: "passengers p2 \<noteq> []"
          using False by (simp add: p2_def)
        have "getPoolsFromStorage (snd (exitPool pid st)) = pools[i := p2]"
          using False Some k
          by (simp add: exitPool_def pools_def [symmetric] p_def [symmetric] p1_def p2_def
              savePoolsToStorage_def getPoolsFromStorage_def [of "Some _"] Let_def)
        then have "q \<in> insert p2 (set pools)"
          using q set_update_subset_insert [of pools i p2] by auto
        with ne e show ?thesis
          by (auto simp: pools_def)
      qed
    qed
  qed
qed

text \<open>
  C6, as the claim states it, fails: it says that no pool with zero passengers is ever
  retained. Pools are created with no passenger and stay stored; here the user joins and
  leaves the first of two pools, and the second, never joined, is still there.
\<close>

theorem zero_passenger_pool_retained_counterexample:
  "reachable demo_left_empty \<and>
   getPoolsFromStorage demo_left_empty = [demo_second_pool] \<and>
   passengers demo_second_pool = []"
proof -
  have "getPoolsFromStorage demo_left_empty = [demo_second_pool]"
    by code_simp
  moreover have "passengers demo_second_pool = []"
    by (simp add: demo_second_pool_def)
  ultimately show ?thesis
    using reachable_demo_left_empty by simp
qed

text \<open>
  C6, amended. When the current user is the only passenger of the pool P that the id
  finds, exitPool succeeds and stores the array without P's entry (so without P, when no
  other entry equals it). And exitPool never stores a pool it has emptied: a pool without
  passengers in the storage afterwards was there before.
\<close>

theorem exitPool_last_passenger:
  "(findIndex (\<lambda>p. poolId p = pid) (getPoolsFromStorage st) = Some i \<and>
    passengers (getPoolsFromStorage st ! i) = [u] \<and> isCurrentUser u \<longrightarrow>
      exitPool pid st =
        (\<lparr> success = True, message = ''Pool exited.'' \<rparr>,
         Some (splice1 i (getPoolsFromStorage st))) \<and>
      (distinct (getPoolsFromStorage st) \<longrightarrow>
         getPoolsFromStorage st ! i \<notin> set (getPoolsFromStorage (snd (exitPool pid st))))) \<and>
   (\<forall>q \<in> set (getPoolsFromStorage (snd (exitPool pid st))).
      passengers q = [] \<longrightarrow> q \<in> set (getPoolsFromStorage st))"
proof (intro conjI impI ballI)
  assume a: "findIndex (\<lambda>p. poolId p = pid) (getPoolsFromStorage st) = Some i \<and>
    passengers (getPoolsFromStorage st ! i) = [u] \<and> isCurrentUser u"
  then show "exitPool pid st =
        (\<lparr> success = True, message = ''Pool exited.'' \<rparr>,
         Some (splice1 i (getPoolsFromStorage st)))"
    using exitPool_emptied [of pid st i u] by (simp add: succeed_def)
next
  assume a: "findIndex (\<lambda>p. poolId p = pid) (getPoolsFromStorage st) = Some i \<and>
    passengers (getPoolsFromStorage st ! i) = [u] \<and> isCurrentUser u"
    and d: "distinct (getPoolsFromStorage st)"
  from a have i: "i < length (getPoolsFromStorage st)"
    using findIndex_Some [of "\<lambda>p. poolId p = pid" "getPoolsFromStorage st" i] by simp
  from a have "getPoolsFromStorage (snd (exitPool pid st)) = splice1 i (getPoolsFromStorage st)"
    using exitPool_emptied [of pid st i u] by (simp add: getPoolsFromStorage_def [of "Some _"])
  then show "getPoolsFromStorage st ! i \<notin> set (getPoolsFromStorage (snd (exitPool pid st)))"
    using nth_notin_splice1 [OF d i] by simp
next
  fix q
  assume "q \<in> set (getPoolsFromStorage (snd (exitPool pid st)))" and "passengers q = []"
  then show "q \<in> set (getPoolsFromStorage st)"
    by (rule exitPool_no_new_empty)
qed

theorem exitPool_last_passenger_witness:
  "findIndex (\<lambda>p. poolId p = ''pool-1000'') (getPoolsFromStorage demo_joined) = Some 0 \<and>
   passengers (getPoolsFromStorage demo_joined ! 0) = [currentUser] \<and>
   isCurrentUser currentUser \<and> distinct (getPoolsFromStorage demo_joined) \<and>
   exitPool ''pool-1000'' demo_joined =
     (\<lparr> success = True, message = ''Pool exited.'' \<rparr>, Some []) \<and>
   getPoolsFromStorage demo_joined ! 0
     \<notin> set (getPoolsFromStorage (snd (exitPool ''pool-1000'' demo_joined))) \<and>
   demo_second_pool \<in> set (getPoolsFromStorage (snd (exitPool ''pool-1000'' demo_first_joined))) \<and>
   passengers demo_second_pool = [] \<and>
   demo_second_pool \<in> set (getPoolsFromStorage demo_first_joined)"
proof -
  have only: "passengers (getPoolsFromStorage demo_joined ! 0) = [currentUser]"
    by (simp add: pools_demo_joined demo_joined_pool_def)
  have u: "isCurrentUser currentUser"
    by (simp add: isCurrentUser_def)
  have d: "distinct (getPoolsFromStorage demo_joined)"
    by (simp add: pools_demo_joined)
  have s: "splice1 0 (getPoolsFromStorage demo_joined) = []"
    by (simp add: pools_demo_joined splice1_Cons_0)
  from exitPool_last_passenger [of "''pool-1000''" demo_joined 0 currentUser]
    findIndex_demo_joined only u d
  have e: "exitPool ''pool-1000'' demo_joined =
        (\<lparr> success = True, message = ''Pool exited.'' \<rparr>,
         Some (splice1 0 (getPoolsFromStorage demo_joined)))"
    and n: "getPoolsFromStorage demo_joined ! 0
        \<notin> set (getPoolsFromStorage (snd (exitPool ''pool-1000'' demo_joined)))"
    by blast+
  from e have e': "exitPool ''pool-1000'' demo_joined =
        (\<lparr> success = True, message = ''Pool exited.'' \<rparr>, Some [])"
    by (simp only: s)
  have "getPoolsFromStorage (snd (exitPool ''pool-1000'' demo_first_joined)) = [demo_second_pool]"
    by code_simp
  then have q: "demo_second_pool
      \<in> set (getPoolsFromStorage (snd (exitPool ''pool-1000'' demo_first_joined)))"
    by simp
  have z: "passengers demo_second_pool = []"
    by (simp add: demo_second_pool_def)
  from exitPool_last_passenger [of "''pool-1000''" demo_first_joined 0 currentUser] q z
  have b: "demo_second_pool \<in> set (getPoolsFromStorage demo_first_joined)"
    by blast
  from findIndex_demo_joined only u d e' n q z b show ?thesis
    by blast
qed





section \<open>assignDriver\<close>

text \<open>
  C8. assignDriver fails with NotFound when no pool has the id, and with AlreadyAccepted
  when the pool found has a driverId; both leave the storage as it was. Otherwise it
  succeeds and stores the pool with the simulated driver's id and name and with status
  CONFIRMED when the passenger list is as long as the capacity, ACCEPTED when not.
\<close>

theorem assignDriver_outcomes:
  "(findIndex (\<lambda>p. poolId p = pid) (getPoolsFromStorage st) = None \<longrightarrow>
      assignDriver pid st = (\<lparr> success = False, message = ''Pool not found!'' \<rparr>, st)) \<and>
   (findIndex (\<lambda>p. poolId p = pid) (getPoolsFromStorage st) = Some i \<and>
    truthy (driverId (getPoolsFromStorage st ! i)) \<longrightarrow>
      assignDriver pid st =
        (\<lparr> success = False, message = ''This pool has already been accepted.'' \<rparr>, st)) \<and>
   (findIndex (\<lambda>p. poolId p = pid) (getPoolsFromStorage st) = Some i \<and>
    \<not> truthy (driverId (getPoolsFromStorage st ! i)) \<longrightarrow>
      success (fst (assignDriver pid st)) \<and>
      snd (assignDriver pid st) =
        Some ((getPoolsFromStorage st)
          [i := (getPoolsFromStorage st ! i)
             \<lparr> driverId := Some ''driver007'', driverName := Some ''Suresh K.'',
               status := (if length (passengers (getPoolsFromStorage st ! i)) =
                             capacity (getPoolsFromStorage st ! i)
                          then CONFIRMED else ACCEPTED) \<rparr>]))"
  by (simp add: assignDriver_def failure_def succeed_def msg_NotFound_def
      msg_AlreadyAccepted_def savePoolsToStorage_def currentDriver_driverId_def
      currentDriver_name_def Let_def)

theorem assignDriver_outcomes_witness:
  "findIndex (\<lambda>p. poolId p = ''pool-9'') (getPoolsFromStorage demo_created) = None \<and>
   assignDriver ''pool-9'' demo_created =
     (\<lparr> success = False, message = ''Pool not found!'' \<rparr>, demo_created) \<and>
   findIndex (\<lambda>p. poolId p = ''pool-1000'') (getPoolsFromStorage demo_accepted) = Some 0 \<and>
   truthy (driverId (getPoolsFromStorage demo_accepted ! 0)) \<and>
   assignDriver ''pool-1000'' demo_accepted =
     (\<lparr> success = False, message = ''This pool has already been accepted.'' \<rparr>,
      demo_accepted) \<and>
   findIndex (\<lambda>p. poolId p = ''pool-1000'') (getPoolsFromStorage demo_joined) = Some 0 \<and>
   \<not> truthy (driverId (getPoolsFromStorage demo_joined ! 0)) \<and>
   success (fst (assignDriver ''pool-1000'' demo_joined)) \<and>
   snd (assignDriver ''pool-1000'' demo_joined) = Some [demo_accepted_pool] \<and>
   findIndex (\<lambda>p. poolId p = ''pool-7'') (getPoolsFromStorage demo_full_undriven) = Some 0 \<and>
   \<not> truthy (driverId (getPoolsFromStorage demo_full_undriven ! 0)) \<and>
   success (fst (assignDriver ''pool-7'' demo_full_undriven)) \<and>
   snd (assignDriver ''pool-7'' demo_full_undriven) = Some [demo_full_pool]"
proof -
  have n: "findIndex (\<lambda>p. poolId p = ''pool-9'') (getPoolsFromStorage demo_created) = None"
    by (simp add: pools_demo_created demo_pending_pool_def)
  from assignDriver_outcomes [of "''pool-9''" demo_created 0] n
  have a: "assignDriver ''pool-9'' demo_created =
     (\<lparr> success = False, message = ''Pool not found!'' \<rparr>, demo_created)"
    by blast
  have i2: "findIndex (\<lambda>p. poolId p = ''pool-1000'') (getPoolsFromStorage demo_accepted) = Some 0"
    by (simp add: pools_demo_accepted demo_accepted_pool_def)
  have t2: "truthy (driverId (getPoolsFromStorage demo_accepted ! 0))"
    by (simp add: pools_demo_accepted demo_accepted_pool_def truthy_def)
  from assignDriver_outcomes [of "''pool-1000''" demo_accepted 0] i2 t2
  have b: "assignDriver ''pool-1000'' demo_accepted =
     (\<lparr> success = False, message = ''This pool has already been accepted.'' \<rparr>,
      demo_accepted)"
    by blast
  have t3: "\<not> truthy (driverId (getPoolsFromStorage demo_joined ! 0))"
    by (simp add: pools_demo_joined demo_joined_pool_def truthy_def)
  from assignDriver_outcomes [of "''pool-1000''" demo_joined 0] findIndex_demo_joined t3
  have c: "success (fst (assignDriver ''pool-1000'' demo_joined))"
    and c': "snd (assignDriver ''pool-1000'' demo_joined) =
        Some ((getPoolsFromStorage demo_joined)
          [0 := (getPoolsFromStorage demo_joined ! 0)
             \<lparr> driverId := Some ''driver007'', driverName := Some ''Suresh K.'',
               status := (if length (passengers (getPoolsFromStorage demo_joined ! 0)) =
                             capacity (getPoolsFromStorage demo_joined ! 0)
                          then CONFIRMED else ACCEPTED) \<rparr>])"
    by blast+
  from c' have c'': "snd (assignDriver ''pool-1000'' demo_joined) = Some [demo_accepted_pool]"
    by (simp add: pools_demo_joined demo_joined_pool_def demo_accepted_pool_def)
  have p4: "getPoolsFromStorage demo_full_undriven =
      [demo_full_pool\<lparr> status := PENDING, driverId := None, driverName := None \<rparr>]"
    by (simp add: demo_full_undriven_def getPoolsFromStorage_def)
  have i4: "findIndex (\<lambda>p. poolId p = ''pool-7'') (getPoolsFromStorage demo_full_undriven) = Some 0"
    by (simp add: p4 demo_full_pool_def)
  have t4: "\<not> truthy (driverId (getPoolsFromStorage demo_full_undriven ! 0))"
    by (simp add: p4 truthy_def)
  from assignDriver_outcomes [of "''pool-7''" demo_full_undriven 0] i4 t4
  have d: "success (fst (assignDriver ''pool-7'' demo_full_undriven))"
    and d': "snd (assignDriver ''pool-7'' demo_full_undriven) =
        Some ((getPoolsFromStorage demo_full_undriven)
          [0 := (getPoolsFromStorage demo_full_undriven ! 0)
             \<lparr> driverId := Some ''driver007'', driverName := Some ''Suresh K.'',
               status := (if length (passengers (getPoolsFromStorage demo_full_undriven ! 0)) =
                             capacity (getPoolsFromStorage demo_full_undriven ! 0)
                          then CONFIRMED else ACCEPTED) \<rparr>])"
    by blast+
  from d' have d'': "snd (assignDriver ''pool-7'' demo_full_undriven) = Some [demo_full_pool]"
    by (simp add: p4 demo_full_pool_def)
  from n a i2 t2 b findIndex_demo_joined t3 c c'' i4 t4 d d'' show ?thesis
    by blast
qed

section \<open>Read-only queries\<close>

text \<open>
  C9, as the claim states it, fails: the current user can be a passenger of two pools of a
  reachable storage, since joinPool looks at the target pool only.
\<close>

theorem joined_two_pools_counterexample:
  "reachable demo_two_joined \<and>
   map poolId (joinedPools demo_two_joined) = [''pool-1000'', ''pool-2000'']"
proof -
  have "map poolId (joinedPools demo_two_joined) = [''pool-1000'', ''pool-2000'']"
    by code_simp
  then show ?thesis
    using reachable_demo_two_joined by simp
qed

text \<open>
  C9, amended. getMyJoinedPool returns the first pool, in storage order, that has the
  current user among its passengers, and nothing when there is none; the user may have
  joined several.
\<close>

theorem getMyJoinedPool_first_match:
  "getMyJoinedPool st = (case joinedPools st of [] \<Rightarrow> None | p # _ \<Rightarrow> Some p)"
  by (simp add: getMyJoinedPool_def joinedPools_def find_filter)

text \<open>
  C10. In every reachable storage a PENDING pool has no driver; put the other way, a pool
  with a driver is ACCEPTED or CONFIRMED. Hence the driver's query, which asks for PENDING
  and for no driver, returns exactly the PENDING pools.
\<close>

theorem pending_pool_has_no_driver:
  assumes "reachable st"
  shows "(\<forall>p \<in> set (getPoolsFromStorage st). status p = PENDING \<longrightarrow> driverId p = None) \<and>
         (\<forall>p \<in> set (getPoolsFromStorage st).
            driverId p \<noteq> None \<longrightarrow> status p = ACCEPTED \<or> status p = CONFIRMED) \<and>
         getAvailablePoolsForDriver st =
           filter (\<lambda>p. status p = PENDING) (getPoolsFromStorage st)"
proof (intro conjI ballI impI)
  fix p
  assume "p \<in> set (getPoolsFromStorage st)" and "status p = PENDING"
  with reachable_pool_inv [OF assms] show "driverId p = None"
    by (simp add: pool_inv_def)
next
  fix p
  assume "p \<in> set (getPoolsFromStorage st)" and "driverId p \<noteq> None"
  with reachable_pool_inv [OF assms] have "status p \<noteq> PENDING"
    by (simp add: pool_inv_def)
  then show "status p = ACCEPTED \<or> status p = CONFIRMED"
    by (cases "status p") simp_all
next
  have "\<And>p. p \<in> set (getPoolsFromStorage st) \<Longrightarrow>
          (status p = PENDING \<and> \<not> truthy (driverId p)) = (status p = PENDING)"
  proof -
    fix p
    assume "p \<in> set (getPoolsFromStorage st)"
    with reachable_pool_inv [OF assms] have "status p = PENDING \<longleftrightarrow> driverId p = None"
      by (simp add: pool_inv_def)
    then show "(status p = PENDING \<and> \<not> truthy (driverId p)) = (status p = PENDING)"
      by (auto simp: truthy_def)
  qed
  then show "getAvailablePoolsForDriver st =
           filter (\<lambda>p. status p = PENDING) (getPoolsFromStorage st)"
    unfolding getAvailablePoolsForDriver_def by (rule filter_cong [OF refl])
qed

theorem pending_pool_has_no_driver_witness:
  "reachable demo_mixed \<and>
   demo_pending_pool \<in> set (getPoolsFromStorage demo_mixed) \<and>
   status demo_pending_pool = PENDING \<and> driverId demo_pending_pool = None \<and>
   demo_driven_pool \<in> set (getPoolsFromStorage demo_mixed) \<and>
   driverId demo_driven_pool \<noteq> None \<and>
   (status demo_driven_pool = ACCEPTED \<or> status demo_driven_pool = CONFIRMED) \<and>
   getAvailablePoolsForDriver demo_mixed = [demo_pending_pool]"
proof -
  note t = pending_pool_has_no_driver [OF reachable_demo_mixed]
  have ma: "demo_pending_pool \<in> set (getPoolsFromStorage demo_mixed)"
    and mb: "demo_driven_pool \<in> set (getPoolsFromStorage demo_mixed)"
    by (simp_all add: pools_demo_mixed)
  have s: "status demo_pending_pool = PENDING"
    by (simp add: demo_pending_pool_def)
  have d: "driverId demo_driven_pool \<noteq> None" and s': "status demo_driven_pool \<noteq> PENDING"
    by (simp_all add: demo_driven_pool_def)
  from t ma s have a: "driverId demo_pending_pool = None"
    by blast
  from t mb d have b: "status demo_driven_pool = ACCEPTED \<or> status demo_driven_pool = CONFIRMED"
    by blast
  from t have "getAvailablePoolsForDriver demo_mixed =
      filter (\<lambda>p. status p = PENDING) (getPoolsFromStorage demo_mixed)"
    by blast
  then have c: "getAvailablePoolsForDriver demo_mixed = [demo_pending_pool]"
    using s s' by (simp add: pools_demo_mixed)
  from reachable_demo_mixed ma mb s d a b c show ?thesis
    by blast
qed

end
